theory Spec2Isabelle
  imports Main "HOL-Library.Product_Lexorder" "HOL-Library.Multiset"
begin

section \<open>Python values and text\<close>

text \<open>
  A Python \<open>str\<close> is a sequence of Unicode code points, so a text is a list of natural
  numbers and \<open>length\<close> counts what \<open>len\<close> counts. \<open>py\<close> writes a text from a literal.
\<close>

type_synonym pystr = "nat list"

definition cp :: "char \<Rightarrow> nat" where
  \<comment> \<open>the code point of a character of a literal\<close>
  "cp c = of_char c"

definition py :: "string \<Rightarrow> pystr" where
  "py s = map cp s"

definition isspace :: "nat \<Rightarrow> bool" where
  \<comment> \<open>\<open>str.isspace\<close>, also the class \<open>\s\<close> of \<open>re\<close> on \<open>str\<close> patterns\<close>
  "isspace c = ((9 \<le> c \<and> c \<le> 13) \<or> (28 \<le> c \<and> c \<le> 32) \<or> c = 133 \<or> c = 160
                \<or> c = 5760 \<or> (8192 \<le> c \<and> c \<le> 8202) \<or> c = 8232 \<or> c = 8233
                \<or> c = 8239 \<or> c = 8287 \<or> c = 12288)"

definition latin1_upper :: "nat \<Rightarrow> bool" where
  \<comment> \<open>the uppercase letters below 256: A-Z and U+00C0..U+00DE without U+00D7\<close>
  "latin1_upper c = ((65 \<le> c \<and> c \<le> 90) \<or> (192 \<le> c \<and> c \<le> 222 \<and> c \<noteq> 215))"

definition latin1_lower :: "nat \<Rightarrow> nat" where
  \<comment> \<open>the lowercase form of a code point below 256\<close>
  "latin1_lower c = (if latin1_upper c then c + 32 else c)"

definition str_strip :: "pystr \<Rightarrow> pystr" where
  \<comment> \<open>\<open>s.strip()\<close>\<close>
  "str_strip s = rev (dropWhile isspace (rev (dropWhile isspace s)))"

definition str_remove :: "nat \<Rightarrow> pystr \<Rightarrow> pystr" where
  \<comment> \<open>\<open>s.replace(c, '')\<close>\<close>
  "str_remove c s = filter (\<lambda>x. x \<noteq> c) s"

definition str_replace :: "nat \<Rightarrow> nat \<Rightarrow> pystr \<Rightarrow> pystr" where
  \<comment> \<open>\<open>s.replace(a, b)\<close> for one-character \<open>a\<close> and \<open>b\<close>\<close>
  "str_replace a b s = map (\<lambda>x. if x = a then b else x) s"

definition split_first :: "nat \<Rightarrow> pystr \<Rightarrow> pystr" where
  \<comment> \<open>\<open>s.split(c)[0]\<close>: the text before the first \<open>c\<close>, all of \<open>s\<close> when there is none\<close>
  "split_first c s = takeWhile (\<lambda>x. x \<noteq> c) s"

definition last_chars :: "nat \<Rightarrow> pystr \<Rightarrow> pystr" where
  \<comment> \<open>\<open>s[-n:]\<close> for \<open>n > 0\<close>: the whole of a shorter string\<close>
  "last_chars n s = drop (length s - n) s"

datatype pyexn = ValueError | TypeError | OverflowError | OSError

text \<open>
  The values a JSON document gives a field. \<open>POther\<close> stands for a float, a list or an
  object, and carries its truth value.
\<close>

datatype pyval = PNone | PBool bool | PInt int | PStr pystr | POther bool

fun truthy :: "pyval \<Rightarrow> bool" where
  "truthy PNone = False"
| "truthy (PBool b) = b"
| "truthy (PInt n) = (n \<noteq> 0)"
| "truthy (PStr s) = (s \<noteq> [])"
| "truthy (POther b) = b"

section \<open>The platform\<close>

text \<open>
  What the program takes from the interpreter and the machine it runs on.

  \<open>utcoffset\<close> is the rule of the local time zone: the seconds that local time is ahead of
  UTC at an epoch second. \<open>float_timeval\<close> is \<open>float(s)\<close> followed by the conversion of
  that double to whole seconds and microseconds (rounding half to even), which is binary
  floating point arithmetic and is not computed here. \<open>time_t\<close> has 64 bits and the C
  library fails when the year does not fit an \<open>int\<close>.

  The other three fields are the Unicode database of the interpreter, consulted for the
  code points from 256 on, where it changes from one version to the next:
  \<open>unicode_lower\<close> is \<open>str.lower\<close> on a text that has such a code point (the mapping looks
  at the neighbours of a capital sigma, so it is taken for the whole text),
  \<open>unicode_upper\<close> tells the uppercase letters, and \<open>unicode_decimal\<close> gives the value of a
  decimal digit. Below 256 the tables are written out.
\<close>

datatype float_result =
    NotAFloat             \<comment> \<open>\<open>float(s)\<close> raises ValueError\<close>
  | NaN                   \<comment> \<open>the conversion raises ValueError\<close>
  | OutOfRange            \<comment> \<open>infinite or beyond \<open>time_t\<close>: OverflowError\<close>
  | Timeval int int       \<comment> \<open>seconds and microseconds\<close>

record platform =
  utcoffset :: "int \<Rightarrow> int"
  float_timeval :: "pystr \<Rightarrow> float_result"
  unicode_lower :: "pystr \<Rightarrow> pystr"
  unicode_upper :: "nat \<Rightarrow> bool"
  unicode_decimal :: "nat \<Rightarrow> nat option"

definition isupper :: "platform \<Rightarrow> nat \<Rightarrow> bool" where
  \<comment> \<open>\<open>c.isupper()\<close> for one character\<close>
  "isupper P c = (if c < 256 then latin1_upper c else unicode_upper P c)"

definition str_lower :: "platform \<Rightarrow> pystr \<Rightarrow> pystr" where
  \<comment> \<open>\<open>s.lower()\<close>\<close>
  "str_lower P s = (if list_all (\<lambda>c. c < 256) s then map latin1_lower s else unicode_lower P s)"

definition isdigit :: "platform \<Rightarrow> nat \<Rightarrow> bool" where
  \<comment> \<open>the class \<open>\d\<close>: a decimal digit of any script\<close>
  "isdigit P c = (if c < 256 then 48 \<le> c \<and> c \<le> 57 else unicode_decimal P c \<noteq> None)"

definition digit_value :: "platform \<Rightarrow> nat \<Rightarrow> nat" where
  \<comment> \<open>the value that \<open>int\<close> gives a decimal digit\<close>
  "digit_value P c =
     (if c < 256 then c - 48 else case unicode_decimal P c of Some v \<Rightarrow> v | None \<Rightarrow> 0)"

section \<open>Device records\<close>

text \<open>
  A device record as the monitoring service delivers it. The hardware address is a
  text, or \<open>None\<close> when the key is absent or null. \<open>last_report\<close> is read with
  \<open>get('last_report')\<close>, which gives \<open>None\<close> for an absent key as for null. The remaining
  keys are carried through to the report: \<open>None\<close> is an absent key, \<open>Some PNone\<close> a key
  that holds null.
\<close>

record computer =
  system_mac_address :: "pystr option"
  last_report :: pyval
  computer_name :: "pyval option"
  client_id :: "pyval option"
  uid :: "pyval option"
  group :: "pyval option"
  serial_number :: "pyval option"
  os_version :: "pyval option"
  computer_url :: "pyval option"

section \<open>Grouping by hardware address\<close>

definition normalize_mac :: "platform \<Rightarrow> pystr option \<Rightarrow> pystr option" where
  \<comment> \<open>the body of the loop of \<open>find_duplicates\<close> up to the length test; \<open>None\<close> is \<open>continue\<close>\<close>
  "normalize_mac P system_mac =
     (case system_mac of
        None \<Rightarrow> None
      | Some m \<Rightarrow>
          if m = [] \<or> str_strip m = [] then None
          else let normalized_mac =
                     str_strip (str_lower P (str_remove (cp CHR ''-'') (str_remove (cp CHR '':'') m)))
               in if length normalized_mac \<noteq> 12 then None else Some normalized_mac)"

text \<open>
  \<open>mac_groups\<close> is a \<open>defaultdict(list)\<close>; a dict keeps its keys in the order of their
  first insertion, so it is an association list with distinct keys.
\<close>

type_synonym groups = "(pystr \<times> computer list) list"

fun append_group :: "pystr \<Rightarrow> computer \<Rightarrow> groups \<Rightarrow> groups" where
  \<comment> \<open>\<open>mac_groups[k].append(c)\<close>\<close>
  "append_group k c [] = [(k, [c])]"
| "append_group k c ((k', cs) # gs) =
     (if k' = k then (k', cs @ [c]) # gs else (k', cs) # append_group k c gs)"

fun mac_groups :: "platform \<Rightarrow> computer list \<Rightarrow> groups \<Rightarrow> groups" where
  "mac_groups P [] gs = gs"
| "mac_groups P (c # cs) gs =
     (case normalize_mac P (system_mac_address c) of
        None \<Rightarrow> mac_groups P cs gs
      | Some normalized_mac \<Rightarrow> mac_groups P cs (append_group normalized_mac c gs))"

definition find_duplicates :: "platform \<Rightarrow> computer list \<Rightarrow> groups" where
  "find_duplicates P computers =
     filter (\<lambda>(mac, cs). length cs > 1) (mac_groups P computers [])"

section \<open>Dates and times\<close>

text \<open>
  A naive \<open>datetime\<close>. Python orders two of them by comparing the tuples of their
  fields, which \<open>dt_tuple\<close> gives.
\<close>

record datetime =
  year :: int
  month :: int
  day :: int
  hour :: int
  minute :: int
  second :: int
  microsecond :: int

type_synonym dt_key = "int \<times> int \<times> int \<times> int \<times> int \<times> int \<times> int"

definition dt_tuple :: "datetime \<Rightarrow> dt_key" where
  "dt_tuple t = (year t, month t, day t, hour t, minute t, second t, microsecond t)"

definition datetime_min :: datetime where
  \<comment> \<open>\<open>datetime.min\<close>\<close>
  "datetime_min = \<lparr>year = 1, month = 1, day = 1, hour = 0, minute = 0, second = 0,
                    microsecond = 0\<rparr>"

definition bind_exn :: "pyexn + 'a \<Rightarrow> ('a \<Rightarrow> pyexn + 'b) \<Rightarrow> pyexn + 'b" where
  \<comment> \<open>run \<open>f\<close> on the value of \<open>r\<close>; an exception raised by \<open>r\<close> goes on\<close>
  "bind_exn r f = (case r of Inl e \<Rightarrow> Inl e | Inr x \<Rightarrow> f x)"

subsection \<open>The proleptic Gregorian calendar of the datetime module\<close>

definition is_leap :: "int \<Rightarrow> bool" where
  "is_leap y = (y mod 4 = 0 \<and> (y mod 100 \<noteq> 0 \<or> y mod 400 = 0))"

definition month_lengths :: "int list" where
  "month_lengths = [0, 31, 28, 31, 30, 31, 30, 31, 31, 30, 31, 30, 31]"

definition month_starts :: "int list" where
  "month_starts = [0, 0, 31, 59, 90, 120, 151, 181, 212, 243, 273, 304, 334]"

definition days_in_month :: "int \<Rightarrow> int \<Rightarrow> int" where
  \<comment> \<open>for a month in 1..12\<close>
  "days_in_month y m = (if m = 2 \<and> is_leap y then 29 else month_lengths ! nat m)"

definition days_before_month :: "int \<Rightarrow> int \<Rightarrow> int" where
  \<comment> \<open>for a month in 1..12\<close>
  "days_before_month y m = month_starts ! nat m + (if m > 2 \<and> is_leap y then 1 else 0)"

definition days_before_year :: "int \<Rightarrow> int" where
  "days_before_year y = (y - 1) * 365 + (y - 1) div 4 - (y - 1) div 100 + (y - 1) div 400"

definition ymd_to_ord :: "int \<Rightarrow> int \<Rightarrow> int \<Rightarrow> int" where
  \<comment> \<open>the ordinal of a date; 0001-01-01 is day 1\<close>
  "ymd_to_ord y m d = days_before_year y + days_before_month y m + d"

definition ord_to_ymd :: "int \<Rightarrow> int \<times> int \<times> int" where
  "ord_to_ymd ordinal =
     (let o1 = ordinal - 1;
          n400 = o1 div 146097; r400 = o1 mod 146097;
          n100 = r400 div 36524; r100 = r400 mod 36524;
          n4 = r100 div 1461; r4 = r100 mod 1461;
          n1 = r4 div 365; n = r4 mod 365;
          y = n400 * 400 + 1 + n100 * 100 + n4 * 4 + n1
      in if n1 = 4 \<or> n100 = 4 then (y - 1, 12, 31)
         else let leapyear = (n1 = 3 \<and> (n4 \<noteq> 24 \<or> n100 = 3));
                  m = (n + 50) div 32;
                  preceding = month_starts ! nat m + (if m > 2 \<and> leapyear then 1 else 0)
              in if preceding > n
                 then (y, m - 1, n - (preceding - days_in_month y (m - 1)) + 1)
                 else (y, m, n - preceding + 1))"

definition datetime_new ::
  "int \<Rightarrow> int \<Rightarrow> int \<Rightarrow> int \<Rightarrow> int \<Rightarrow> int \<Rightarrow> int \<Rightarrow> pyexn + datetime" where
  \<comment> \<open>the constructor \<open>datetime(y, m, d, H, M, S, us)\<close> with its range checks\<close>
  "datetime_new y m d H M S us =
     (if y < 1 \<or> 9999 < y then Inl ValueError
      else if m < 1 \<or> 12 < m then Inl ValueError
      else if d < 1 \<or> days_in_month y m < d then Inl ValueError
      else if H < 0 \<or> 23 < H then Inl ValueError
      else if M < 0 \<or> 59 < M then Inl ValueError
      else if S < 0 \<or> 59 < S then Inl ValueError
      else if us < 0 \<or> 999999 < us then Inl ValueError
      else Inr \<lparr>year = y, month = m, day = d, hour = H, minute = M, second = S,
                microsecond = us\<rparr>)"

subsection \<open>\<open>datetime.fromtimestamp\<close>\<close>

definition fits_time_t :: "int \<Rightarrow> bool" where
  "fits_time_t t = (- (2 ^ 63) \<le> t \<and> t < 2 ^ 63)"

definition localtime :: "platform \<Rightarrow> int \<Rightarrow> pyexn + (int \<times> int \<times> int \<times> int \<times> int \<times> int)" where
  "localtime P t =
     (let loc = t + utcoffset P t;
          sod = loc mod 86400;
          (y, m, d) = ord_to_ymd (loc div 86400 + 719163)
      in if y - 1900 < - (2 ^ 31) \<or> 2 ^ 31 \<le> y - 1900 then Inl OSError
         else Inr (y, m, d, sod div 3600, sod mod 3600 div 60, sod mod 60))"

definition utc_to_seconds :: "int \<times> int \<times> int \<times> int \<times> int \<times> int \<Rightarrow> pyexn + int" where
  "utc_to_seconds tm =
     (case tm of (y, m, d, H, M, S) \<Rightarrow>
        if y < 1 \<or> 9999 < y then Inl ValueError
        else Inr (((ymd_to_ord y m d * 24 + H) * 60 + M) * 60 + S))"

definition epoch :: int where
  "epoch = 719163 * 24 * 60 * 60"

definition max_fold_seconds :: int where
  "max_fold_seconds = 24 * 3600"

definition local_seconds :: "platform \<Rightarrow> int \<Rightarrow> pyexn + int" where
  \<comment> \<open>\<open>local(u)\<close> of the datetime module\<close>
  "local_seconds P u =
     (let t = u - epoch
      in if \<not> fits_time_t t then Inl OverflowError
         else bind_exn (localtime P t) utc_to_seconds)"

definition datetime_from_timet_and_us :: "platform \<Rightarrow> int \<Rightarrow> int \<Rightarrow> pyexn + datetime" where
  \<comment> \<open>local time of \<open>timet\<close>, the two probes that look for a repeated hour, the constructor\<close>
  "datetime_from_timet_and_us P timet us =
     bind_exn (localtime P timet) (\<lambda>tm.
     bind_exn (utc_to_seconds tm) (\<lambda>result_seconds.
     bind_exn (local_seconds P (epoch + timet - max_fold_seconds)) (\<lambda>probe_seconds.
     bind_exn (let transition = result_seconds - probe_seconds - max_fold_seconds
               in if transition < 0 then local_seconds P (epoch + timet + transition)
                  else Inr probe_seconds) (\<lambda>_.
     case tm of (y, m, d, H, M, S) \<Rightarrow> datetime_new y m d H M (min 59 S) us))))"

definition fromtimestamp_int :: "platform \<Rightarrow> int \<Rightarrow> pyexn + datetime" where
  \<comment> \<open>\<open>datetime.fromtimestamp(n)\<close> for an \<open>int\<close>\<close>
  "fromtimestamp_int P n =
     (if \<not> fits_time_t n then Inl OverflowError else datetime_from_timet_and_us P n 0)"

definition fromtimestamp_float_str :: "platform \<Rightarrow> pystr \<Rightarrow> pyexn + datetime" where
  \<comment> \<open>\<open>datetime.fromtimestamp(float(s))\<close>\<close>
  "fromtimestamp_float_str P s =
     (case float_timeval P s of
        NotAFloat \<Rightarrow> Inl ValueError
      | NaN \<Rightarrow> Inl ValueError
      | OutOfRange \<Rightarrow> Inl OverflowError
      | Timeval t us \<Rightarrow> datetime_from_timet_and_us P t us)"

subsection \<open>\<open>datetime.strptime\<close> with the format \<open>%Y-%m-%d %H:%M:%S\<close>\<close>

text \<open>
  \<open>strptime\<close> turns the format into a regular expression and matches it at the start of
  the text. A matcher lists every way of matching a prefix, as the text matched and the
  text left, in the order in which the backtracking matcher of \<open>re\<close> tries them; the
  match that \<open>re\<close> reports is the first of the list.
\<close>

type_synonym 'a matcher = "pystr \<Rightarrow> ('a \<times> pystr) list"

definition in_range :: "char \<Rightarrow> char \<Rightarrow> nat \<Rightarrow> bool" where
  \<comment> \<open>a class such as \<open>[0-2]\<close>\<close>
  "in_range lo hi c = (cp lo \<le> c \<and> c \<le> cp hi)"

definition one_of :: "(nat \<Rightarrow> bool) \<Rightarrow> pystr matcher" where
  \<comment> \<open>one character of a class\<close>
  "one_of p s = (case s of [] \<Rightarrow> [] | c # r \<Rightarrow> if p c then [([c], r)] else [])"

definition lit :: "char \<Rightarrow> pystr matcher" where
  "lit a = one_of (\<lambda>c. c = cp a)"

definition seq :: "pystr matcher \<Rightarrow> pystr matcher \<Rightarrow> pystr matcher" where
  "seq a b s = concat (map (\<lambda>(x, r). map (\<lambda>(y, r'). (x @ y, r')) (b r)) (a s))"

definition alt :: "pystr matcher \<Rightarrow> pystr matcher \<Rightarrow> pystr matcher" where
  "alt a b s = a s @ b s"

definition spaces1 :: "pystr matcher" where
  \<comment> \<open>\<open>\s+\<close>, greedy: the longest run first, then the shorter ones\<close>
  "spaces1 s = (let k = length (takeWhile isspace s)
                in map (\<lambda>i. (take i s, drop i s)) (rev [1 ..< Suc k]))"

definition bind_match :: "('a \<times> pystr) list \<Rightarrow> ('a \<Rightarrow> 'b matcher) \<Rightarrow> ('b \<times> pystr) list" where
  \<comment> \<open>go on after each way of matching so far, keeping the order\<close>
  "bind_match xs f = concat (map (\<lambda>(x, r). f x r) xs)"

definition re_Y :: "platform \<Rightarrow> pystr matcher" where
  \<comment> \<open>\<open>\d\d\d\d\<close>\<close>
  "re_Y P = seq (one_of (isdigit P)) (seq (one_of (isdigit P))
              (seq (one_of (isdigit P)) (one_of (isdigit P))))"

definition re_m :: "pystr matcher" where
  \<comment> \<open>\<open>1[0-2]|0[1-9]|[1-9]\<close>\<close>
  "re_m = alt (seq (lit CHR ''1'') (one_of (in_range CHR ''0'' CHR ''2'')))
         (alt (seq (lit CHR ''0'') (one_of (in_range CHR ''1'' CHR ''9'')))
              (one_of (in_range CHR ''1'' CHR ''9'')))"

definition re_d :: "platform \<Rightarrow> pystr matcher" where
  \<comment> \<open>\<open>3[0-1]|[1-2]\d|0[1-9]|[1-9]| [1-9]\<close>\<close>
  "re_d P = alt (seq (lit CHR ''3'') (one_of (in_range CHR ''0'' CHR ''1'')))
           (alt (seq (one_of (in_range CHR ''1'' CHR ''2'')) (one_of (isdigit P)))
           (alt (seq (lit CHR ''0'') (one_of (in_range CHR ''1'' CHR ''9'')))
           (alt (one_of (in_range CHR ''1'' CHR ''9''))
                (seq (lit CHR '' '') (one_of (in_range CHR ''1'' CHR ''9''))))))"

definition re_H :: "platform \<Rightarrow> pystr matcher" where
  \<comment> \<open>\<open>2[0-3]|[0-1]\d|\d\<close>\<close>
  "re_H P = alt (seq (lit CHR ''2'') (one_of (in_range CHR ''0'' CHR ''3'')))
           (alt (seq (one_of (in_range CHR ''0'' CHR ''1'')) (one_of (isdigit P)))
                (one_of (isdigit P)))"

definition re_M :: "platform \<Rightarrow> pystr matcher" where
  \<comment> \<open>\<open>[0-5]\d|\d\<close>\<close>
  "re_M P = alt (seq (one_of (in_range CHR ''0'' CHR ''5'')) (one_of (isdigit P)))
                (one_of (isdigit P))"

definition re_S :: "platform \<Rightarrow> pystr matcher" where
  \<comment> \<open>\<open>6[0-1]|[0-5]\d|\d\<close>\<close>
  "re_S P = alt (seq (lit CHR ''6'') (one_of (in_range CHR ''0'' CHR ''1'')))
           (alt (seq (one_of (in_range CHR ''0'' CHR ''5'')) (one_of (isdigit P)))
                (one_of (isdigit P)))"

definition format_regex ::
  "platform \<Rightarrow> (pystr \<times> pystr \<times> pystr \<times> pystr \<times> pystr \<times> pystr) matcher" where
  \<comment> \<open>the expression of \<open>%Y-%m-%d %H:%M:%S\<close>; the blank of the format is \<open>\s+\<close>\<close>
  "format_regex P s =
     bind_match (re_Y P s) (\<lambda>Y r.
     bind_match (lit CHR ''-'' r) (\<lambda>_ r.
     bind_match (re_m r) (\<lambda>m r.
     bind_match (lit CHR ''-'' r) (\<lambda>_ r.
     bind_match (re_d P r) (\<lambda>d r.
     bind_match (spaces1 r) (\<lambda>_ r.
     bind_match (re_H P r) (\<lambda>H r.
     bind_match (lit CHR '':'' r) (\<lambda>_ r.
     bind_match (re_M P r) (\<lambda>M r.
     bind_match (lit CHR '':'' r) (\<lambda>_ r.
     bind_match (re_S P r) (\<lambda>S r. [((Y, m, d, H, M, S), r)])))))))))))"

definition int_of_str :: "platform \<Rightarrow> pystr \<Rightarrow> int" where
  \<comment> \<open>\<open>int(s)\<close> for digits with blanks around them\<close>
  "int_of_str P s = foldl (\<lambda>a c. 10 * a + int (digit_value P c)) 0 (str_strip s)"

definition strptime :: "platform \<Rightarrow> pystr \<Rightarrow> pyexn + datetime" where
  \<comment> \<open>no match, or text left after the match: ValueError; then the constructor\<close>
  "strptime P data_string =
     (case format_regex P data_string of
        [] \<Rightarrow> Inl ValueError
      | ((Y, m, d, H, M, S), rest) # _ \<Rightarrow>
          if rest \<noteq> [] then Inl ValueError
          else datetime_new (int_of_str P Y) (int_of_str P m) (int_of_str P d)
                 (int_of_str P H) (int_of_str P M) (int_of_str P S) 0)"

section \<open>The timestamp parser\<close>

definition except_value_type :: "pyexn + datetime \<Rightarrow> pyexn + datetime option" where
  \<comment> \<open>\<open>except (ValueError, TypeError): return None\<close>; any other exception leaves the function\<close>
  "except_value_type r =
     (case r of
        Inr t \<Rightarrow> Inr (Some t)
      | Inl ValueError \<Rightarrow> Inr None
      | Inl TypeError \<Rightarrow> Inr None
      | Inl e \<Rightarrow> Inl e)"

definition parse_iso :: "platform \<Rightarrow> pystr \<Rightarrow> pyexn + datetime" where
  \<comment> \<open>the branch of a string with a \<open>T\<close>\<close>
  "parse_iso P s =
     (let clean_date = str_replace (cp CHR ''T'') (cp CHR '' '') (split_first (cp CHR ''.'') s);
          clean_date = (if cp CHR ''+'' \<in> set clean_date
                           \<or> cp CHR ''-'' \<in> set (last_chars 6 clean_date)
                        then split_first (cp CHR ''-'') (split_first (cp CHR ''+'') clean_date)
                        else clean_date)
      in strptime P clean_date)"

definition parse_last_report :: "platform \<Rightarrow> pyval \<Rightarrow> pyexn + datetime option" where
  \<comment> \<open>\<open>Inl\<close>: the exception that leaves the function; \<open>Inr None\<close>: it returns \<open>None\<close>\<close>
  "parse_last_report P v =
     (if \<not> truthy v then Inr None
      else case v of
             PBool b \<Rightarrow> except_value_type (fromtimestamp_int P (if b then 1 else 0))
           | PInt n \<Rightarrow> except_value_type (fromtimestamp_int P n)
           | PStr s \<Rightarrow>
               if cp CHR ''T'' \<in> set s then except_value_type (parse_iso P s)
               else except_value_type (fromtimestamp_float_str P s)
           | _ \<Rightarrow> Inr None)"

section \<open>Choosing the record to keep\<close>

fun parse_dates :: "platform \<Rightarrow> computer list \<Rightarrow> pyexn + (computer \<times> datetime option) list" where
  \<comment> \<open>the loop that fills \<open>computer_dates\<close>\<close>
  "parse_dates P [] = Inr []"
| "parse_dates P (c # cs) =
     bind_exn (parse_last_report P (last_report c)) (\<lambda>last_report_date.
     bind_exn (parse_dates P cs) (\<lambda>r. Inr ((c, last_report_date) # r)))"

definition sort_key_date :: "computer \<times> datetime option \<Rightarrow> dt_key" where
  \<comment> \<open>\<open>lambda x: x[1] if x[1] is not None else datetime.min\<close>\<close>
  "sort_key_date x = (case snd x of Some t \<Rightarrow> dt_tuple t | None \<Rightarrow> dt_tuple datetime_min)"

definition sort_reverse :: "(computer \<times> datetime option) list \<Rightarrow> (computer \<times> datetime option) list" where
  \<comment> \<open>\<open>sort(key=..., reverse=True)\<close>: the list is reversed, sorted stably, and reversed again\<close>
  "sort_reverse xs = rev (sort_key sort_key_date (rev xs))"

definition computer_dates :: "platform \<Rightarrow> computer list \<Rightarrow> pyexn + (computer \<times> datetime option) list" where
  \<comment> \<open>\<open>computer_dates\<close> after the sort; its first element is the keeper\<close>
  "computer_dates P computers = bind_exn (parse_dates P computers) (\<lambda>cds. Inr (sort_reverse cds))"

definition reason :: "pystr \<Rightarrow> pystr" where
  \<comment> \<open>\<open>f"Duplicate MAC {mac_address}, older report date"\<close>\<close>
  "reason mac_address = py ''Duplicate MAC '' @ mac_address @ py '', older report date''"

fun identify_devices_to_remove :: "platform \<Rightarrow> groups \<Rightarrow> pyexn + (computer \<times> pystr) list" where
  "identify_devices_to_remove P [] = Inr []"
| "identify_devices_to_remove P ((mac_address, computers) # rest) =
     bind_exn (computer_dates P computers) (\<lambda>cds.
       let to_remove = (if length cds > 1
                        then map (\<lambda>(computer, date). (computer, reason mac_address)) (tl cds)
                        else [])
       in bind_exn (identify_devices_to_remove P rest) (\<lambda>r. Inr (to_remove @ r)))"

section \<open>The report\<close>

fun digits :: "nat \<Rightarrow> pystr" where
  "digits n = (if n < 10 then [48 + n] else digits (n div 10) @ [48 + n mod 10])"

declare digits.simps [simp del]

definition zero_pad :: "nat \<Rightarrow> int \<Rightarrow> pystr" where
  \<comment> \<open>\<open>'%0wd' % n\<close> for \<open>n \<ge> 0\<close>\<close>
  "zero_pad w n = (let ds = digits (nat n) in replicate (w - length ds) (cp CHR ''0'') @ ds)"

definition isoformat :: "datetime \<Rightarrow> pystr" where
  "isoformat t =
     zero_pad 4 (year t) @ py ''-'' @ zero_pad 2 (month t) @ py ''-'' @ zero_pad 2 (day t)
     @ py ''T'' @ zero_pad 2 (hour t) @ py '':'' @ zero_pad 2 (minute t) @ py '':''
     @ zero_pad 2 (second t)
     @ (if microsecond t \<noteq> 0 then py ''.'' @ zero_pad 6 (microsecond t) else [])"

record device_info =
  di_computer_name :: pyval
  di_client_id :: pyval
  di_uid :: pyval
  di_last_report :: pyval
  di_last_report_parsed :: pystr
  di_group :: pyval
  di_serial_number :: pyval
  di_os_version :: pyval
  di_computer_url :: pyval

record group_detail =
  mac_address :: pystr
  total_devices :: nat
  device_to_keep :: "device_info option"
  gd_devices_to_remove :: "device_info list"

record report =
  total_computers_analyzed :: nat
  total_duplicate_groups :: nat
  total_duplicate_devices :: nat
  devices_to_keep :: "device_info list"
  devices_to_remove :: "device_info list"
  duplicate_groups_detail :: "group_detail list"

definition get_default :: "pyval option \<Rightarrow> string \<Rightarrow> pyval" where
  \<comment> \<open>\<open>computer.get(key, default)\<close>: the default for an absent key only, null stays null\<close>
  "get_default v d = (case v of None \<Rightarrow> PStr (py d) | Some x \<Rightarrow> x)"

definition device_info_of :: "computer \<times> datetime option \<Rightarrow> device_info" where
  "device_info_of x =
     (case x of (computer, date) \<Rightarrow>
        \<lparr>di_computer_name = get_default (computer_name computer) ''Unknown'',
         di_client_id = get_default (client_id computer) ''Unknown'',
         di_uid = get_default (uid computer) ''Unknown'',
         di_last_report = last_report computer,
         di_last_report_parsed =
           (case date of Some t \<Rightarrow> isoformat t | None \<Rightarrow> py ''Unknown''),
         di_group = get_default (group computer) ''Unknown'',
         di_serial_number = get_default (serial_number computer) ''Unknown'',
         di_os_version = get_default (os_version computer) ''Unknown'',
         di_computer_url = get_default (computer_url computer) ''N/A''\<rparr>)"

fun report_groups :: "platform \<Rightarrow> groups \<Rightarrow> report \<Rightarrow> pyexn + report" where
  \<comment> \<open>the loop over the groups: index 0 of the sorted list is kept, the others are removed\<close>
  "report_groups P [] results = Inr results"
| "report_groups P ((mac, computers) # rest) results =
     bind_exn (computer_dates P computers) (\<lambda>cds.
       let keep = (case cds of [] \<Rightarrow> [] | x # _ \<Rightarrow> [device_info_of x]);
           remove = map device_info_of (tl cds);
           group_detail = \<lparr>mac_address = mac, total_devices = length computers,
                           device_to_keep = (case keep of [] \<Rightarrow> None | k # _ \<Rightarrow> Some k),
                           gd_devices_to_remove = remove\<rparr>
       in report_groups P rest
            (results\<lparr>devices_to_keep := devices_to_keep results @ keep,
                     devices_to_remove := devices_to_remove results @ remove,
                     duplicate_groups_detail := duplicate_groups_detail results @ [group_detail]\<rparr>))"

definition generate_report ::
  "platform \<Rightarrow> (computer \<times> pystr) list \<Rightarrow> groups \<Rightarrow> pyexn + report" where
  "generate_report P to_remove duplicate_groups =
     (let results = \<lparr>total_computers_analyzed = 0,
                      total_duplicate_groups = length duplicate_groups,
                      total_duplicate_devices = sum_list (map (\<lambda>(mac, cs). length cs) duplicate_groups),
                      devices_to_keep = [],
                      devices_to_remove = [],
                      duplicate_groups_detail = []\<rparr>
      in if to_remove = [] \<and> duplicate_groups = [] then Inr results
         else report_groups P duplicate_groups results)"

section \<open>Platforms and records for the examples\<close>

definition utc_platform :: platform where
  \<comment> \<open>a machine whose local time is UTC. The examples give it no text to read as a float,
     and of the Unicode database they consult one entry: U+2102, the double-struck capital
     C, is an uppercase letter and has no lowercase form\<close>
  "utc_platform =
     \<lparr>utcoffset = (\<lambda>t. 0),
      float_timeval = (\<lambda>s. NotAFloat),
      unicode_lower = (\<lambda>s. map (\<lambda>c. if c < 256 then latin1_lower c else c) s),
      unicode_upper = (\<lambda>c. c = 8450),
      unicode_decimal = (\<lambda>c. None)\<rparr>"

definition device :: "string \<Rightarrow> pyval \<Rightarrow> computer" where
  \<comment> \<open>a record with a hardware address and a report time, every other key absent\<close>
  "device mac lr =
     \<lparr>system_mac_address = Some (py mac), last_report = lr, computer_name = None,
      client_id = None, uid = None, group = None, serial_number = None,
      os_version = None, computer_url = None\<rparr>"

section \<open>Rules that evaluate the definitions on given inputs\<close>

lemma py_simps: "py [] = []" "py (c # s) = cp c # py s"
  by (simp_all add: py_def)

lemmas text_eval = py_simps cp_def str_strip_def str_lower_def str_remove_def str_replace_def
  split_first_def last_chars_def isspace_def latin1_lower_def latin1_upper_def isupper_def
  isdigit_def digit_value_def Let_def

lemmas regex_eval = in_range_def one_of_def lit_def seq_def alt_def spaces1_def bind_match_def
  re_Y_def re_m_def re_d_def re_H_def re_M_def re_S_def format_regex_def int_of_str_def
  strptime_def

lemmas calendar_eval = is_leap_def month_lengths_def month_starts_def days_in_month_def
  days_before_month_def days_before_year_def ymd_to_ord_def ord_to_ymd_def datetime_new_def
  fits_time_t_def localtime_def utc_to_seconds_def epoch_def max_fold_seconds_def
  local_seconds_def datetime_from_timet_and_us_def fromtimestamp_int_def
  fromtimestamp_float_str_def bind_exn_def

lemmas parser_eval = except_value_type_def parse_iso_def parse_last_report_def utc_platform_def

lemmas group_eval = normalize_mac_def find_duplicates_def device_def

lemmas resolve_eval = computer_dates_def sort_reverse_def sort_key_date_def dt_tuple_def
  datetime_min_def reason_def

section \<open>Normalisation of the hardware address\<close>













section \<open>The grouper\<close>

lemma append_group_keys:
  "fst ` set (append_group k c gs) = insert k (fst ` set gs)"
proof (induction gs)
  case Nil
  show ?case by simp
next
  case (Cons g gs)
  obtain k' cs where g: "g = (k', cs)" by (cases g)
  show ?case using Cons by (cases "k' = k") (simp_all add: g insert_commute)
qed

lemma append_group_distinct:
  "distinct (map fst gs) \<Longrightarrow> distinct (map fst (append_group k c gs))"
  by (induction gs) (auto simp add: append_group_keys)

lemma append_group_map_of:
  "map_of (append_group k c gs) =
     (map_of gs)(k \<mapsto> (case map_of gs k of None \<Rightarrow> [c] | Some cs \<Rightarrow> cs @ [c]))"
  by (induction gs) (auto simp add: fun_eq_iff)

lemma mac_groups_invariant:
  assumes "distinct (map fst gs)"
  shows "distinct (map fst (mac_groups P cs gs)) \<and>
         map_of (mac_groups P cs gs) k =
           (let new = filter (\<lambda>c. normalize_mac P (system_mac_address c) = Some k) cs
            in case map_of gs k of
                 None \<Rightarrow> if new = [] then None else Some new
               | Some old \<Rightarrow> Some (old @ new))"
  using assms
proof (induction cs arbitrary: gs)
  case Nil
  then show ?case by (simp split: option.splits)
next
  case (Cons c cs)
  show ?case
  proof (cases "normalize_mac P (system_mac_address c)")
    case None
    with Cons show ?thesis by simp
  next
    case (Some n)
    have d: "distinct (map fst (append_group n c gs))"
      using Cons.prems by (rule append_group_distinct)
    show ?thesis
      using Cons.IH[OF d] Some
      by (auto simp add: append_group_map_of Let_def split: option.splits)
  qed
qed




text \<open>
  Every key that two or more records normalise to has its bucket, so the buckets are
  exactly the shared addresses.
\<close>

lemma find_duplicates_complete:
  assumes "2 \<le> length (filter (\<lambda>c. normalize_mac P (system_mac_address c) = Some k) computers)"
  shows "(k, filter (\<lambda>c. normalize_mac P (system_mac_address c) = Some k) computers)
           \<in> set (find_duplicates P computers)"
proof -
  let ?new = "filter (\<lambda>c. normalize_mac P (system_mac_address c) = Some k) computers"
  from assms have ne: "?new \<noteq> []" by auto
  have "map_of (mac_groups P computers []) k = (if ?new = [] then None else Some ?new)"
    using mac_groups_invariant[of "[]" P computers k] by (simp add: Let_def)
  with ne have "map_of (mac_groups P computers []) k = Some ?new" by simp
  then have "(k, ?new) \<in> set (mac_groups P computers [])" by (rule map_of_SomeD)
  with assms show ?thesis by (simp add: find_duplicates_def)
qed

section \<open>The calendar\<close>











section \<open>The parser on integers\<close>






lemma int_parsed:
  "parse_last_report utc_platform (PInt 1704880800)
     = Inr (Some \<lparr>year = 2024, month = 1, day = 10, hour = 10, minute = 0, second = 0,
                    microsecond = 0\<rparr>)"
  by (simp add: text_eval regex_eval calendar_eval parser_eval)


text \<open>
  Claim C2. The claim has no exception leave the parser. For the integer \<open>10 ^ 20\<close>
  \<open>fromtimestamp\<close> raises OverflowError, which the handler of ValueError and TypeError
  does not catch.
\<close>

theorem overflow_leaves_parser:
  "parse_last_report utc_platform (PInt (10 ^ 20)) = Inl OverflowError"
  by (simp add: text_eval regex_eval calendar_eval parser_eval)

text \<open>
  The same holds for every integer that does not fit \<open>time_t\<close>.
\<close>

lemma out_of_time_t_leaves_parser:
  assumes "\<not> fits_time_t n"
  shows "parse_last_report P (PInt n) = Inl OverflowError"
proof -
  from assms have "n \<noteq> 0" by (auto simp add: fits_time_t_def)
  with assms show ?thesis
    by (simp add: parse_last_report_def fromtimestamp_int_def except_value_type_def)
qed

section \<open>The parser on ISO texts\<close>

lemma no_offset_is_parsed:
  "parse_last_report utc_platform (PStr (py ''2024-01-10T10:00:00''))
     = Inr (Some \<lparr>year = 2024, month = 1, day = 10, hour = 10, minute = 0, second = 0,
                    microsecond = 0\<rparr>)"
  by (simp add: text_eval regex_eval calendar_eval parser_eval)

text \<open>
  Claim C1. The claim has both texts parse to 2024-01-10 10:00:00. Here stripping the
  offset also cuts the date at its first \<open>-\<close>, only \<open>2024\<close> reaches \<open>strptime\<close>, and the
  parser returns \<open>None\<close> for both.
\<close>

theorem offset_is_not_parsed:
  "parse_last_report utc_platform (PStr (py ''2024-01-10T10:00:00+05:00'')) = Inr None
   \<and> parse_last_report utc_platform (PStr (py ''2024-01-10T10:00:00-05:00'')) = Inr None"
  by (simp add: text_eval regex_eval calendar_eval parser_eval)

text \<open>
  The examples are no accident: whenever the branch that strips the offset is taken,
  what is left has no \<open>-\<close>, the format needs one after the year, and the result is
  \<open>None\<close>.
\<close>

lemma one_of_split: "(x, r) \<in> set (one_of p s) \<Longrightarrow> s = x @ r"
  by (auto simp add: one_of_def split: list.splits if_splits)

lemma seq_split:
  assumes a: "\<And>s x r. (x, r) \<in> set (a s) \<Longrightarrow> s = x @ r"
    and b: "\<And>s x r. (x, r) \<in> set (b s) \<Longrightarrow> s = x @ r"
    and m: "(x, r) \<in> set (seq a b s)"
  shows "s = x @ r"
proof -
  from m obtain x1 r1 x2 where 1: "(x1, r1) \<in> set (a s)" and 2: "(x2, r) \<in> set (b r1)"
    and x: "x = x1 @ x2"
    by (auto simp add: seq_def)
  from a[OF 1] b[OF 2] x show ?thesis by simp
qed

lemma re_Y_split: "(x, r) \<in> set (re_Y P s) \<Longrightarrow> s = x @ r"
  unfolding re_Y_def
  by (erule seq_split[rotated 2], erule one_of_split,
      erule seq_split[rotated 2], erule one_of_split,
      erule seq_split[rotated 2], erule one_of_split, erule one_of_split)

lemma lit_absent: "cp c \<notin> set r \<Longrightarrow> lit c r = []"
  by (cases r) (auto simp add: lit_def one_of_def)

lemma bind_match_Nil: "(\<And>x r. (x, r) \<in> set xs \<Longrightarrow> f x r = []) \<Longrightarrow> bind_match xs f = []"
  by (auto simp add: bind_match_def)

lemma format_regex_no_dash:
  assumes "cp CHR ''-'' \<notin> set s"
  shows "format_regex P s = []"
  unfolding format_regex_def
proof (rule bind_match_Nil)
  fix Y r
  assume "(Y, r) \<in> set (re_Y P s)"
  then have "s = Y @ r" by (rule re_Y_split)
  with assms have "cp CHR ''-'' \<notin> set r" by auto
  then have "lit CHR ''-'' r = []" by (rule lit_absent)
  then show "bind_match (lit CHR ''-'' r) (\<lambda>_ r.
     bind_match (re_m r) (\<lambda>m r.
     bind_match (lit CHR ''-'' r) (\<lambda>_ r.
     bind_match (re_d P r) (\<lambda>d r.
     bind_match (spaces1 r) (\<lambda>_ r.
     bind_match (re_H P r) (\<lambda>H r.
     bind_match (lit CHR '':'' r) (\<lambda>_ r.
     bind_match (re_M P r) (\<lambda>M r.
     bind_match (lit CHR '':'' r) (\<lambda>_ r.
     bind_match (re_S P r) (\<lambda>S r. [((Y, m, d, H, M, S), r)])))))))))) = []"
    by (simp add: bind_match_def)
qed

lemma strptime_no_dash: "cp CHR ''-'' \<notin> set s \<Longrightarrow> strptime P s = Inl ValueError"
  by (simp add: strptime_def format_regex_no_dash)

lemma split_first_absent: "c \<notin> set (split_first c s)"
  by (auto simp add: split_first_def dest: set_takeWhileD)

lemma stripped_offset_is_unknown:
  assumes "cp CHR ''T'' \<in> set s"
    and "cp CHR ''+'' \<in> set (str_replace (cp CHR ''T'') (cp CHR '' '') (split_first (cp CHR ''.'') s))
         \<or> cp CHR ''-'' \<in> set (last_chars 6
               (str_replace (cp CHR ''T'') (cp CHR '' '') (split_first (cp CHR ''.'') s)))"
  shows "parse_last_report P (PStr s) = Inr None"
proof -
  from assms(1) have ne: "s \<noteq> []" by auto
  have "parse_iso P s = Inl ValueError"
    using assms(2) by (simp add: parse_iso_def Let_def strptime_no_dash split_first_absent)
  with ne assms(1) show ?thesis
    by (simp add: parse_last_report_def except_value_type_def)
qed

section \<open>Resolution\<close>

lemma bind_exn_Inr:
  "bind_exn r f = Inr y \<longleftrightarrow> (\<exists>x. r = Inr x \<and> f x = Inr y)"
  by (cases r) (simp_all add: bind_exn_def)

lemma bind_exn_Inl:
  "bind_exn r f = Inl e \<longleftrightarrow> r = Inl e \<or> (\<exists>x. r = Inr x \<and> f x = Inl e)"
  by (cases r) (simp_all add: bind_exn_def)

lemma parse_dates_Inr:
  "parse_dates P cs = Inr cds \<Longrightarrow> map fst cds = cs"
  by (induction cs arbitrary: cds) (auto simp add: bind_exn_Inr)

lemma parse_dates_snd:
  "parse_dates P cs = Inr cds \<Longrightarrow>
     list_all2 (\<lambda>c x. parse_last_report P (last_report c) = Inr (snd x)) cs cds"
  by (induction cs arbitrary: cds) (auto simp add: bind_exn_Inr)

lemma parse_dates_Inl:
  "parse_dates P cs = Inl e \<Longrightarrow> \<exists>c\<in>set cs. parse_last_report P (last_report c) = Inl e"
  by (induction cs) (auto simp add: bind_exn_Inl)

lemma parse_dates_total:
  "\<forall>c\<in>set cs. \<exists>d. parse_last_report P (last_report c) = Inr d \<Longrightarrow> \<exists>cds. parse_dates P cs = Inr cds"
  by (induction cs) (auto simp add: bind_exn_def)

lemma mset_sort_reverse: "mset (sort_reverse xs) = mset xs"
  by (simp add: sort_reverse_def)

lemma length_sort_reverse: "length (sort_reverse xs) = length xs"
  by (simp add: sort_reverse_def)

lemma set_sort_reverse: "set (sort_reverse xs) = set xs"
  by (simp add: sort_reverse_def)

lemma computer_dates_Inr:
  assumes "computer_dates P cs = Inr cds"
  shows "length cds = length cs" and "mset (map fst cds) = mset cs"
proof -
  from assms obtain pds where p: "parse_dates P cs = Inr pds" and s: "cds = sort_reverse pds"
    by (auto simp add: computer_dates_def bind_exn_Inr)
  from parse_dates_Inr[OF p] have m: "map fst pds = cs" .
  then have "length pds = length cs" by (metis length_map)
  then show "length cds = length cs" by (simp add: s length_sort_reverse)
  have "mset (map fst cds) = image_mset fst (mset (sort_reverse pds))" by (simp add: s)
  also have "\<dots> = mset (map fst pds)" by (simp add: mset_sort_reverse)
  finally show "mset (map fst cds) = mset cs" by (simp add: m)
qed

lemma computer_dates_Inl:
  "computer_dates P cs = Inl e \<Longrightarrow> \<exists>c\<in>set cs. parse_last_report P (last_report c) = Inl e"
  by (auto simp add: computer_dates_def bind_exn_Inl dest: parse_dates_Inl)

lemma parse_last_report_None: "parse_last_report P PNone = Inr None"
  by (simp add: parse_last_report_def)

text \<open>
  Claim C7. Two records with the same normalised address and no report time form one
  group; the sort leaves them in input order, the first is the keeper and the second is
  listed for removal with a reason that ends in \<open>older report date\<close>.
\<close>

theorem both_unknown_keeps_first:
  assumes "normalize_mac P (system_mac_address a) = Some m"
    and "normalize_mac P (system_mac_address b) = Some m"
    and "last_report a = PNone" and "last_report b = PNone"
  shows "find_duplicates P [a, b] = [(m, [a, b])]
         \<and> computer_dates P [a, b] = Inr [(a, None), (b, None)]
         \<and> identify_devices_to_remove P (find_duplicates P [a, b])
             = Inr [(b, py ''Duplicate MAC '' @ m @ py '', older report date'')]"
proof -
  have g: "find_duplicates P [a, b] = [(m, [a, b])]"
    using assms(1,2) by (simp add: find_duplicates_def)
  have s: "computer_dates P [a, b] = Inr [(a, None), (b, None)]"
    using assms(3,4)
    by (simp add: computer_dates_def bind_exn_def parse_last_report_None
        sort_reverse_def sort_key_date_def)
  have "identify_devices_to_remove P [(m, [a, b])]
          = Inr [(b, py ''Duplicate MAC '' @ m @ py '', older report date'')]"
    by (simp add: s bind_exn_def reason_def)
  with g s show ?thesis by simp
qed

theorem both_unknown_keeps_first_witness:
  "find_duplicates utc_platform [device ''AA:BB:CC:DD:EE:FF'' PNone, device ''aabbccddeeff'' PNone] = [(py ''aabbccddeeff'', [device ''AA:BB:CC:DD:EE:FF'' PNone, device ''aabbccddeeff'' PNone])]
   \<and> computer_dates utc_platform [device ''AA:BB:CC:DD:EE:FF'' PNone, device ''aabbccddeeff'' PNone] = Inr [(device ''AA:BB:CC:DD:EE:FF'' PNone, None), (device ''aabbccddeeff'' PNone, None)]
   \<and> identify_devices_to_remove utc_platform (find_duplicates utc_platform [device ''AA:BB:CC:DD:EE:FF'' PNone, device ''aabbccddeeff'' PNone])
       = Inr [(device ''aabbccddeeff'' PNone, py ''Duplicate MAC '' @ py ''aabbccddeeff'' @ py '', older report date'')]"
proof -
  have 1: "normalize_mac utc_platform (system_mac_address (device ''AA:BB:CC:DD:EE:FF'' PNone)) = Some (py ''aabbccddeeff'')"
    by (simp add: group_eval text_eval)
  have 2: "normalize_mac utc_platform (system_mac_address (device ''aabbccddeeff'' PNone)) = Some (py ''aabbccddeeff'')"
    by (simp add: group_eval text_eval)
  have 3: "last_report (device ''AA:BB:CC:DD:EE:FF'' PNone) = PNone" "last_report (device ''aabbccddeeff'' PNone) = PNone"
    by (simp_all add: device_def)
  show ?thesis
    using both_unknown_keeps_first [OF 1 2 3] .
qed

text \<open>
  Claim C9, as stated, fails: the reason reads \<open>Duplicate MAC\<close>, not
  \<open>Duplicate identity\<close>.
\<close>

theorem reason_names_mac:
  "identify_devices_to_remove utc_platform
         [(py ''aabbccddeeff'', [device ''aabbccddeeff'' PNone, device ''aabbccddeeff'' PNone])]
     = Inr [(device ''aabbccddeeff'' PNone, py ''Duplicate MAC aabbccddeeff, older report date'')]
   \<and> py ''Duplicate MAC aabbccddeeff, older report date''
       \<noteq> py ''Duplicate identity aabbccddeeff, older report date''"
  by (simp add: resolve_eval parser_eval bind_exn_def text_eval device_def)

lemma identify_set:
  "identify_devices_to_remove P gs = Inr rs \<Longrightarrow>
     set rs = (\<Union>(m, cs)\<in>set gs. \<Union>cds\<in>{cds. computer_dates P cs = Inr cds}.
                 (\<lambda>x. (fst x, reason m)) ` set (tl cds))"
proof (induction P gs arbitrary: rs rule: identify_devices_to_remove.induct)
  case (1 P)
  then show ?case by simp
next
  case (2 P mac_address computers rest)
  from "2.prems" obtain cds r where
    c: "computer_dates P computers = Inr cds"
    and r: "identify_devices_to_remove P rest = Inr r"
    and rs: "rs = (if length cds > 1
                   then map (\<lambda>(computer, date). (computer, reason mac_address)) (tl cds)
                   else []) @ r"
    by (auto simp add: bind_exn_Inr Let_def)
  have t: "(if length cds > 1
            then map (\<lambda>(computer, date). (computer, reason mac_address)) (tl cds)
            else []) = map (\<lambda>x. (fst x, reason mac_address)) (tl cds)"
    by (cases cds rule: remdups_adj.cases) (auto simp add: case_prod_unfold)
  have ih: "set r = (\<Union>(m, cs)\<in>set rest. \<Union>cds\<in>{cds. computer_dates P cs = Inr cds}.
                 (\<lambda>x. (fst x, reason m)) ` set (tl cds))"
    using "2.IH"[OF refl r] by simp
  show ?case
    unfolding rs t using c by (simp add: ih)
qed

text \<open>
  Claim C9, amended. When \<open>identify_devices_to_remove\<close> returns, its list holds exactly
  the members after the first of each sorted group, each with the reason
  \<open>Duplicate MAC m, older report date\<close> for the key \<open>m\<close> of its group.
\<close>

theorem removal_reason:
  assumes "identify_devices_to_remove P gs = Inr rs"
  shows "(c, r) \<in> set rs \<longleftrightarrow>
         (\<exists>m cs cds. (m, cs) \<in> set gs \<and> computer_dates P cs = Inr cds
            \<and> c \<in> fst ` set (tl cds)
            \<and> r = py ''Duplicate MAC '' @ m @ py '', older report date'')"
  unfolding identify_set[OF assms] by (auto simp add: reason_def)

theorem removal_reason_witness:
  "identify_devices_to_remove utc_platform [(py ''aabbccddeeff'', [device ''AA:BB:CC:DD:EE:FF'' PNone, device ''aabbccddeeff'' PNone])]
     = Inr [(device ''aabbccddeeff'' PNone, py ''Duplicate MAC aabbccddeeff, older report date'')]
   \<and> (\<exists>m cs cds. (m, cs) \<in> set [(py ''aabbccddeeff'', [device ''AA:BB:CC:DD:EE:FF'' PNone, device ''aabbccddeeff'' PNone])]
          \<and> computer_dates utc_platform cs = Inr cds
          \<and> device ''aabbccddeeff'' PNone \<in> fst ` set (tl cds)
          \<and> py ''Duplicate MAC aabbccddeeff, older report date''
              = py ''Duplicate MAC '' @ m @ py '', older report date'')"
proof -
  have h: "identify_devices_to_remove utc_platform [(py ''aabbccddeeff'', [device ''AA:BB:CC:DD:EE:FF'' PNone, device ''aabbccddeeff'' PNone])]
             = Inr [(device ''aabbccddeeff'' PNone, py ''Duplicate MAC aabbccddeeff, older report date'')]"
    by (simp add: resolve_eval parser_eval bind_exn_def text_eval device_def)
  have "(device ''aabbccddeeff'' PNone, py ''Duplicate MAC aabbccddeeff, older report date'')
          \<in> set [(device ''aabbccddeeff'' PNone, py ''Duplicate MAC aabbccddeeff, older report date'')]"
    by simp
  with removal_reason [OF h, of "device ''aabbccddeeff'' PNone" "py ''Duplicate MAC aabbccddeeff, older report date''"] h
  show ?thesis by blast
qed

text \<open>
  Claim C3. The claim has a record without a known time never kept beside one with a
  known time. A missing time sorts as \<open>datetime.min\<close>; beside a record whose time parses to
  that very instant the sort leaves the input order, and the record without a time is
  kept while the other is listed for removal.
\<close>

theorem unknown_kept_over_known:
  "find_duplicates utc_platform
     [device ''aabbccddeeff'' PNone,
      device ''aabbccddeeff'' (PStr (py ''0001-01-01T00:00:00''))]
     = [(py ''aabbccddeeff'', [device ''aabbccddeeff'' PNone,
                               device ''aabbccddeeff'' (PStr (py ''0001-01-01T00:00:00''))])]
   \<and> parse_last_report utc_platform (PStr (py ''0001-01-01T00:00:00'')) = Inr (Some datetime_min)
   \<and> computer_dates utc_platform
        [device ''aabbccddeeff'' PNone,
         device ''aabbccddeeff'' (PStr (py ''0001-01-01T00:00:00''))]
     = Inr [(device ''aabbccddeeff'' PNone, None),
            (device ''aabbccddeeff'' (PStr (py ''0001-01-01T00:00:00'')), Some datetime_min)]
   \<and> identify_devices_to_remove utc_platform
         [(py ''aabbccddeeff'', [device ''aabbccddeeff'' PNone,
                                 device ''aabbccddeeff'' (PStr (py ''0001-01-01T00:00:00''))])]
     = Inr [(device ''aabbccddeeff'' (PStr (py ''0001-01-01T00:00:00'')),
             py ''Duplicate MAC aabbccddeeff, older report date'')]"
proof -
  have p: "parse_last_report utc_platform (PStr (py ''0001-01-01T00:00:00''))
             = Inr (Some datetime_min)"
    by (simp add: text_eval regex_eval calendar_eval parser_eval datetime_min_def)
  have n: "parse_last_report utc_platform PNone = Inr None"
    by (simp add: parse_last_report_def)
  have g: "find_duplicates utc_platform
             [device ''aabbccddeeff'' PNone,
              device ''aabbccddeeff'' (PStr (py ''0001-01-01T00:00:00''))]
           = [(py ''aabbccddeeff'', [device ''aabbccddeeff'' PNone,
                               device ''aabbccddeeff'' (PStr (py ''0001-01-01T00:00:00''))])]"
    by (simp add: group_eval text_eval)
  have c: "computer_dates utc_platform
        [device ''aabbccddeeff'' PNone,
         device ''aabbccddeeff'' (PStr (py ''0001-01-01T00:00:00''))]
     = Inr [(device ''aabbccddeeff'' PNone, None),
            (device ''aabbccddeeff'' (PStr (py ''0001-01-01T00:00:00'')), Some datetime_min)]"
    by (simp add: computer_dates_def bind_exn_def device_def p n sort_reverse_def
        sort_key_date_def)
  have i: "identify_devices_to_remove utc_platform
         [(py ''aabbccddeeff'', [device ''aabbccddeeff'' PNone,
                                 device ''aabbccddeeff'' (PStr (py ''0001-01-01T00:00:00''))])]
     = Inr [(device ''aabbccddeeff'' (PStr (py ''0001-01-01T00:00:00'')),
             py ''Duplicate MAC aabbccddeeff, older report date'')]"
    unfolding identify_devices_to_remove.simps c
    by (simp add: bind_exn_def reason_def py_simps)
  from g p c i show ?thesis by (intro conjI)
qed

text \<open>
  What does hold of a group: the sort is stable, the keeper has the greatest sort key,
  one member is kept and the others are listed, and a member without a time is kept
  only when no member has a time later than \<open>datetime.min\<close>.
\<close>

lemma sorted_last_greatest:
  "sorted (map f zs) \<Longrightarrow> x \<in> set zs \<Longrightarrow> f x \<le> f (last zs)"
  by (induction zs) (auto split: if_splits)

lemma sort_reverse_hd_greatest:
  assumes "x \<in> set xs"
  shows "sort_key_date x \<le> sort_key_date (hd (sort_reverse xs))"
proof -
  let ?zs = "sort_key sort_key_date (rev xs)"
  have ne: "?zs \<noteq> []" using assms by (metis empty_iff empty_set set_rev set_sort)
  have "x \<in> set ?zs" using assms by simp
  moreover have "sorted (map sort_key_date ?zs)" by (rule sorted_sort_key)
  ultimately have "sort_key_date x \<le> sort_key_date (last ?zs)"
    by (rule sorted_last_greatest[rotated])
  with ne show ?thesis by (simp add: sort_reverse_def hd_rev)
qed

lemma sort_reverse_stable:
  "filter (\<lambda>x. sort_key_date x = k) (sort_reverse xs) = filter (\<lambda>x. sort_key_date x = k) xs"
proof -
  have "filter (\<lambda>x. sort_key_date x = k) (sort_reverse xs)
          = rev (filter (\<lambda>x. sort_key_date x = k) (sort_key sort_key_date (rev xs)))"
    by (simp add: sort_reverse_def rev_filter)
  also have "\<dots> = rev (filter (\<lambda>x. sort_key_date x = k) (rev xs))"
    by (simp only: sort_key_stable)
  finally show ?thesis by (simp add: rev_filter)
qed

lemma keeper_has_greatest_key:
  assumes "computer_dates P cs = Inr cds" and "x \<in> set cds"
  shows "sort_key_date x \<le> sort_key_date (hd cds)"
proof -
  from assms(1) obtain pds where s: "cds = sort_reverse pds"
    by (auto simp add: computer_dates_def bind_exn_Inr)
  with assms(2) have "x \<in> set pds" by (simp add: set_sort_reverse)
  then show ?thesis unfolding s by (rule sort_reverse_hd_greatest)
qed

lemma unknown_keeper_only_beside_minimal_times:
  assumes "computer_dates P cs = Inr cds" and "(c, Some t) \<in> set cds"
    and "dt_tuple datetime_min < dt_tuple t"
  shows "snd (hd cds) \<noteq> None"
proof
  assume "snd (hd cds) = None"
  then have "sort_key_date (hd cds) = dt_tuple datetime_min"
    by (simp add: sort_key_date_def)
  moreover have "sort_key_date (c, Some t) \<le> sort_key_date (hd cds)"
    using assms(1,2) by (rule keeper_has_greatest_key)
  ultimately show False using assms(3) by (simp add: sort_key_date_def)
qed

lemma identify_counts:
  assumes "computer_dates P cs = Inr cds"
  shows "identify_devices_to_remove P [(mac, cs)]
           = Inr (map (\<lambda>x. (fst x, reason mac)) (tl cds))"
    and "length (tl cds) = length cs - 1"
proof -
  have t: "(if length cds > 1
            then map (\<lambda>(computer, date). (computer, reason mac)) (tl cds)
            else []) = map (\<lambda>x. (fst x, reason mac)) (tl cds)"
    by (cases cds rule: remdups_adj.cases) (auto simp add: case_prod_unfold)
  have e: "identify_devices_to_remove P [(mac, cs)]
             = Inr (if length cds > 1
                    then map (\<lambda>(computer, date). (computer, reason mac)) (tl cds)
                    else [])"
    by (simp add: assms bind_exn_def Let_def)
  show "identify_devices_to_remove P [(mac, cs)] = Inr (map (\<lambda>x. (fst x, reason mac)) (tl cds))"
    by (simp only: e t)
  show "length (tl cds) = length cs - 1"
    using computer_dates_Inr(1)[OF assms] by simp
qed

section \<open>What the classification reads of the platform\<close>



















section \<open>The report\<close>

lemma report_groups_Inr:
  "report_groups P gs res = Inr r \<Longrightarrow>
     total_duplicate_groups r = total_duplicate_groups res
     \<and> total_duplicate_devices r = total_duplicate_devices res
     \<and> (\<exists>ds. duplicate_groups_detail r = duplicate_groups_detail res @ ds
          \<and> list_all2 (\<lambda>d (m, cs). \<exists>cds. computer_dates P cs = Inr cds
                \<and> d = \<lparr>mac_address = m, total_devices = length cs,
                       device_to_keep = (case cds of [] \<Rightarrow> None
                                         | x # _ \<Rightarrow> Some (device_info_of x)),
                       gd_devices_to_remove = map device_info_of (tl cds)\<rparr>) ds gs
          \<and> devices_to_keep r = devices_to_keep res
              @ concat (map (\<lambda>d. case device_to_keep d of None \<Rightarrow> [] | Some k \<Rightarrow> [k]) ds)
          \<and> devices_to_remove r = devices_to_remove res
              @ concat (map gd_devices_to_remove ds))"
proof (induction P gs res arbitrary: r rule: report_groups.induct)
  case (1 P results)
  then show ?case by simp
next
  case (2 P mac computers rest results)
  from "2.prems" obtain cds where c: "computer_dates P computers = Inr cds"
    and rec: "report_groups P rest
       (results\<lparr>devices_to_keep := devices_to_keep results
                    @ (case cds of [] \<Rightarrow> [] | x # _ \<Rightarrow> [device_info_of x]),
                 devices_to_remove := devices_to_remove results @ map device_info_of (tl cds),
                 duplicate_groups_detail := duplicate_groups_detail results
                    @ [\<lparr>mac_address = mac, total_devices = length computers,
                         device_to_keep = (case (case cds of [] \<Rightarrow> [] | x # _ \<Rightarrow> [device_info_of x])
                                           of [] \<Rightarrow> None | k # _ \<Rightarrow> Some k),
                         gd_devices_to_remove = map device_info_of (tl cds)\<rparr>]\<rparr>) = Inr r"
    by (auto simp add: bind_exn_Inr Let_def)
  define keep where "keep = (case cds of [] \<Rightarrow> [] | x # _ \<Rightarrow> [device_info_of x])"
  define detail where "detail =
      \<lparr>mac_address = mac, total_devices = length computers,
        device_to_keep = (case cds of [] \<Rightarrow> None | x # _ \<Rightarrow> Some (device_info_of x)),
        gd_devices_to_remove = map device_info_of (tl cds)\<rparr>"
  have d: "\<lparr>mac_address = mac, total_devices = length computers,
            device_to_keep = (case (case cds of [] \<Rightarrow> [] | x # _ \<Rightarrow> [device_info_of x])
                              of [] \<Rightarrow> None | k # _ \<Rightarrow> Some k),
            gd_devices_to_remove = map device_info_of (tl cds)\<rparr> = detail"
    by (cases cds) (simp_all add: detail_def)
  have k: "(case device_to_keep detail of None \<Rightarrow> [] | Some k \<Rightarrow> [k]) = keep"
    by (cases cds) (simp_all add: detail_def keep_def)
  have g: "gd_devices_to_remove detail = map device_info_of (tl cds)"
    by (simp add: detail_def)
  note ih = "2.IH"[OF refl refl refl rec, unfolded d, folded keep_def]
  from ih obtain ds where t: "total_duplicate_groups r = total_duplicate_groups results"
      "total_duplicate_devices r = total_duplicate_devices results"
    and ds: "duplicate_groups_detail r = duplicate_groups_detail results @ detail # ds"
      "list_all2 (\<lambda>d (m, cs). \<exists>cds. computer_dates P cs = Inr cds
                \<and> d = \<lparr>mac_address = m, total_devices = length cs,
                       device_to_keep = (case cds of [] \<Rightarrow> None
                                         | x # _ \<Rightarrow> Some (device_info_of x)),
                       gd_devices_to_remove = map device_info_of (tl cds)\<rparr>) ds rest"
      "devices_to_keep r = devices_to_keep results @ keep
              @ concat (map (\<lambda>d. case device_to_keep d of None \<Rightarrow> [] | Some k \<Rightarrow> [k]) ds)"
      "devices_to_remove r = devices_to_remove results @ map device_info_of (tl cds)
              @ concat (map gd_devices_to_remove ds)"
    by auto
  have here: "\<exists>cds. computer_dates P computers = Inr cds
                \<and> detail = \<lparr>mac_address = mac, total_devices = length computers,
                       device_to_keep = (case cds of [] \<Rightarrow> None
                                         | x # _ \<Rightarrow> Some (device_info_of x)),
                       gd_devices_to_remove = map device_info_of (tl cds)\<rparr>"
    using c by (auto simp add: detail_def)
  show ?case
    using t ds here k g
    by (intro conjI exI[of _ "detail # ds"]) simp_all
qed

lemma report_groups_Inl:
  "report_groups P gs res = Inl e \<Longrightarrow>
     \<exists>(m, cs)\<in>set gs. \<exists>c\<in>set cs. parse_last_report P (last_report c) = Inl e"
proof (induction P gs res rule: report_groups.induct)
  case (1 P results)
  then show ?case by simp
next
  case (2 P mac computers rest results)
  show ?case
  proof (cases "computer_dates P computers")
    case (Inl e')
    with "2.prems" have "e' = e" by (simp add: bind_exn_def)
    with Inl computer_dates_Inl[of P computers e] show ?thesis by auto
  next
    case (Inr cds)
    with "2.prems" "2.IH"[OF refl refl refl] show ?thesis
      by (auto simp add: bind_exn_def Let_def)
  qed
qed

lemma details_of_groups:
  assumes "list_all2 (\<lambda>d (m, cs). \<exists>cds. computer_dates P cs = Inr cds
                \<and> d = \<lparr>mac_address = m, total_devices = length cs,
                       device_to_keep = (case cds of [] \<Rightarrow> None
                                         | x # _ \<Rightarrow> Some (device_info_of x)),
                       gd_devices_to_remove = map device_info_of (tl cds)\<rparr>) ds gs"
    and "\<forall>(m, cs)\<in>set gs. 2 \<le> length cs"
  shows "length (concat (map (\<lambda>d. case device_to_keep d of None \<Rightarrow> [] | Some k \<Rightarrow> [k]) ds))
           = length gs
         \<and> length (concat (map (\<lambda>d. case device_to_keep d of None \<Rightarrow> [] | Some k \<Rightarrow> [k]) ds))
             + length (concat (map gd_devices_to_remove ds))
           = sum_list (map (\<lambda>(m, cs). length cs) gs)
         \<and> map device_to_keep ds
           = map Some (concat (map (\<lambda>d. case device_to_keep d of None \<Rightarrow> [] | Some k \<Rightarrow> [k]) ds))
         \<and> list_all2 (\<lambda>d (m, cs). mac_address d = m \<and> total_devices d = length cs
               \<and> Suc (length (gd_devices_to_remove d)) = length cs
               \<and> (\<exists>cds. computer_dates P cs = Inr cds
                     \<and> device_to_keep d = Some (device_info_of (hd cds))
                     \<and> gd_devices_to_remove d = map device_info_of (tl cds))) ds gs"
  using assms
proof (induction ds gs rule: list_all2_induct)
  case Nil
  show ?case by simp
next
  case (Cons d ds g gs)
  obtain m cs where g: "g = (m, cs)" by (cases g)
  from Cons.hyps(1) g obtain cds where c: "computer_dates P cs = Inr cds"
    and d: "d = \<lparr>mac_address = m, total_devices = length cs,
                  device_to_keep = (case cds of [] \<Rightarrow> None | x # _ \<Rightarrow> Some (device_info_of x)),
                  gd_devices_to_remove = map device_info_of (tl cds)\<rparr>"
    by auto
  have len: "length cds = length cs" using c by (rule computer_dates_Inr)
  from Cons.prems g have "2 \<le> length cs" by simp
  with len obtain x xs where cds: "cds = x # xs" by (cases cds) auto
  have k: "device_to_keep d = Some (device_info_of x)"
    and r: "gd_devices_to_remove d = map device_info_of xs"
    and m: "mac_address d = m" and t: "total_devices d = length cs"
    by (simp_all add: d cds)
  from len cds have l: "Suc (length xs) = length cs" by simp
  from Cons.IH Cons.prems have ih:
    "length (concat (map (\<lambda>d. case device_to_keep d of None \<Rightarrow> [] | Some k \<Rightarrow> [k]) ds))
           = length gs"
    "length (concat (map (\<lambda>d. case device_to_keep d of None \<Rightarrow> [] | Some k \<Rightarrow> [k]) ds))
             + length (concat (map gd_devices_to_remove ds))
           = sum_list (map (\<lambda>(m, cs). length cs) gs)"
    "map device_to_keep ds
           = map Some (concat (map (\<lambda>d. case device_to_keep d of None \<Rightarrow> [] | Some k \<Rightarrow> [k]) ds))"
    "list_all2 (\<lambda>d (m, cs). mac_address d = m \<and> total_devices d = length cs
               \<and> Suc (length (gd_devices_to_remove d)) = length cs
               \<and> (\<exists>cds. computer_dates P cs = Inr cds
                     \<and> device_to_keep d = Some (device_info_of (hd cds))
                     \<and> gd_devices_to_remove d = map device_info_of (tl cds))) ds gs"
    by simp_all
  have here: "\<exists>cds. computer_dates P cs = Inr cds
                     \<and> device_to_keep d = Some (device_info_of (hd cds))
                     \<and> gd_devices_to_remove d = map device_info_of (tl cds)"
    using c k r cds by simp
  show ?case
    using ih k r m t l here by (simp add: g)
qed

text \<open>
  Claim C10. For groups of two or more members each, \<open>generate_report\<close> either returns a
  report or is left by an exception that the parser raised on a member. In the report
  \<open>total_duplicate_groups\<close> is the number of groups and \<open>total_duplicate_devices\<close> the sum
  of their sizes; there are as many kept devices as groups, and as many kept and removed
  devices together as members of all groups. There is one keep for each group: the details
  follow the groups in their order, each with the key and the size of its group, the
  first record of the sorted group as the device to keep and the other records as the
  devices to remove; the kept devices of the report are those of the details, in the
  same order, and the removed devices of the report are those of the details joined.
\<close>

theorem generate_report_counts:
  assumes "\<forall>(m, cs)\<in>set gs. 2 \<le> length cs"
  shows "case generate_report P rm gs of
           Inr r \<Rightarrow>
             total_duplicate_groups r = length gs
             \<and> total_duplicate_devices r = sum_list (map (\<lambda>(m, cs). length cs) gs)
             \<and> length (devices_to_keep r) = total_duplicate_groups r
             \<and> length (devices_to_keep r) + length (devices_to_remove r)
                 = total_duplicate_devices r
             \<and> map device_to_keep (duplicate_groups_detail r) = map Some (devices_to_keep r)
             \<and> concat (map gd_devices_to_remove (duplicate_groups_detail r))
                 = devices_to_remove r
             \<and> list_all2 (\<lambda>d (m, cs). mac_address d = m \<and> total_devices d = length cs
                   \<and> Suc (length (gd_devices_to_remove d)) = length cs
                   \<and> (\<exists>cds. computer_dates P cs = Inr cds
                         \<and> device_to_keep d = Some (device_info_of (hd cds))
                         \<and> gd_devices_to_remove d = map device_info_of (tl cds)))
                 (duplicate_groups_detail r) gs
         | Inl e \<Rightarrow> \<exists>(m, cs)\<in>set gs. \<exists>c\<in>set cs. parse_last_report P (last_report c) = Inl e"
proof (cases "generate_report P rm gs")
  case (Inl e)
  then have "report_groups P gs
      \<lparr>total_computers_analyzed = 0, total_duplicate_groups = length gs,
        total_duplicate_devices = sum_list (map (\<lambda>(mac, cs). length cs) gs),
        devices_to_keep = [], devices_to_remove = [], duplicate_groups_detail = []\<rparr> = Inl e"
    by (simp add: generate_report_def Let_def split: if_splits)
  from report_groups_Inl[OF this] Inl show ?thesis by simp
next
  case (Inr r)
  have "report_groups P gs
      \<lparr>total_computers_analyzed = 0, total_duplicate_groups = length gs,
        total_duplicate_devices = sum_list (map (\<lambda>(mac, cs). length cs) gs),
        devices_to_keep = [], devices_to_remove = [], duplicate_groups_detail = []\<rparr> = Inr r"
    using Inr by (cases "rm = [] \<and> gs = []") (auto simp add: generate_report_def Let_def)
  from report_groups_Inr[OF this]
  obtain ds where t: "total_duplicate_groups r = length gs"
      "total_duplicate_devices r = sum_list (map (\<lambda>(m, cs). length cs) gs)"
    and ds: "duplicate_groups_detail r = ds"
      "devices_to_keep r
         = concat (map (\<lambda>d. case device_to_keep d of None \<Rightarrow> [] | Some k \<Rightarrow> [k]) ds)"
      "devices_to_remove r = concat (map gd_devices_to_remove ds)"
    and all: "list_all2 (\<lambda>d (m, cs). \<exists>cds. computer_dates P cs = Inr cds
                \<and> d = \<lparr>mac_address = m, total_devices = length cs,
                       device_to_keep = (case cds of [] \<Rightarrow> None
                                         | x # _ \<Rightarrow> Some (device_info_of x)),
                       gd_devices_to_remove = map device_info_of (tl cds)\<rparr>) ds gs"
    by auto
  from details_of_groups[OF all assms] t ds Inr show ?thesis by simp
qed

theorem generate_report_counts_witness:
  "\<exists>r. generate_report utc_platform []
          [(py ''aabbccddeeff'', [device ''AA:BB:CC:DD:EE:FF'' PNone,
                                  device ''aabbccddeeff'' (PInt 1704880800)])] = Inr r
       \<and> total_duplicate_groups r = 1 \<and> total_duplicate_devices r = 2
       \<and> length (devices_to_keep r) = 1 \<and> length (devices_to_remove r) = 1
       \<and> devices_to_keep r
           = [device_info_of (device ''aabbccddeeff'' (PInt 1704880800),
                Some \<lparr>year = 2024, month = 1, day = 10, hour = 10, minute = 0,
                      second = 0, microsecond = 0\<rparr>)]
       \<and> devices_to_remove r = [device_info_of (device ''AA:BB:CC:DD:EE:FF'' PNone, None)]
       \<and> map mac_address (duplicate_groups_detail r) = [py ''aabbccddeeff'']"
proof -
  let ?gs = "[(py ''aabbccddeeff'', [device ''AA:BB:CC:DD:EE:FF'' PNone,
                                     device ''aabbccddeeff'' (PInt 1704880800)])]"
  have h: "\<forall>(m, cs)\<in>set ?gs. 2 \<le> length cs"
    by simp
  have a: "parse_last_report utc_platform PNone = Inr None"
    by (simp add: parse_last_report_def)
  have b: "parse_last_report utc_platform (PInt 1704880800)
             = Inr (Some \<lparr>year = 2024, month = 1, day = 10, hour = 10, minute = 0,
                           second = 0, microsecond = 0\<rparr>)"
    by (simp add: text_eval regex_eval calendar_eval parser_eval)
  have c: "computer_dates utc_platform [device ''AA:BB:CC:DD:EE:FF'' PNone,
                                        device ''aabbccddeeff'' (PInt 1704880800)]
             = Inr [(device ''aabbccddeeff'' (PInt 1704880800),
                     Some \<lparr>year = 2024, month = 1, day = 10, hour = 10, minute = 0,
                           second = 0, microsecond = 0\<rparr>),
                    (device ''AA:BB:CC:DD:EE:FF'' PNone, None)]"
    by (simp add: computer_dates_def bind_exn_def device_def a b sort_reverse_def
        sort_key_date_def dt_tuple_def datetime_min_def)
  have "\<exists>r. generate_report utc_platform [] ?gs = Inr r"
    unfolding generate_report_def report_groups.simps c
    by (simp add: bind_exn_def Let_def)
  then obtain r where r: "generate_report utc_platform [] ?gs = Inr r" ..
  show ?thesis
    using generate_report_counts [OF h, of utc_platform "[]"] r
    by (auto simp add: list_all2_Cons2 c)
qed

end
